theory Spec2Isabelle
  imports Complex_Main "HOL-Library.Char_ord" "HOL-Library.List_Lexorder"
begin

section \<open>The population table\<close>

text \<open>
  The program keeps one SQLite table,
  \<^verbatim>\<open>population (city TEXT, year INTEGER, population INTEGER, PRIMARY KEY (city, year))\<close>.
  A row is the triple the program inserts. The table is the list of its rows in rowid
  order, which is the order a scan without \<^verbatim>\<open>ORDER BY\<close> returns them in: a new row
  gets the next rowid, so it goes to the end of the list.

  Text is a \<open>string\<close> of UTF-8 bytes, which is how SQLite stores and (under its default
  BINARY collation) compares it; \<open>Char_ord\<close> and \<open>List_Lexorder\<close> give that byte-wise
  lexicographic order. Python integers are \<open>int\<close>; a value too large for SQLite's
  64-bit INTEGER is outside the model. Python floats are idealised as \<open>real\<close>:
  rounding error, infinities and NaN are outside the model.
\<close>

type_synonym row = "string \<times> int \<times> int"
type_synonym store = "row list"

definition city :: "row \<Rightarrow> string" where
  "city r = fst r"

definition year :: "row \<Rightarrow> int" where
  "year r = fst (snd r)"

definition population :: "row \<Rightarrow> int" where
  "population r = snd (snd r)"

definition key :: "row \<Rightarrow> string \<times> int" where
  "key r = (city r, year r)"

text \<open>The primary key constraint: no two rows share (city, year).\<close>

definition primary_key :: "store \<Rightarrow> bool" where
  "primary_key s = distinct (map key s)"

text \<open>
  \<^verbatim>\<open>INSERT OR IGNORE\<close>: a row whose key is already present is dropped, any other row
  is appended.
\<close>

definition insert_or_ignore :: "row \<Rightarrow> store \<Rightarrow> store" where
  "insert_or_ignore r s = (if key r \<in> set (map key s) then s else s @ [r])"

text \<open>
  \<^verbatim>\<open>INSERT OR REPLACE\<close>: the rows holding the key are deleted, then the new row is
  inserted (with a new rowid, so at the end).
\<close>

definition insert_or_replace :: "row \<Rightarrow> store \<Rightarrow> store" where
  "insert_or_replace r s = filter (\<lambda>r'. key r' \<noteq> key r) s @ [r]"

text \<open>\<^verbatim>\<open>SELECT city, population FROM population WHERE year = 2023\<close>\<close>

definition select_2023 :: "store \<Rightarrow> (string \<times> int) list" where
  "select_2023 s = map (\<lambda>r. (city r, population r)) (filter (\<lambda>r. year r = 2023) s)"

text \<open>\<^verbatim>\<open>SELECT DISTINCT city FROM population ORDER BY city\<close>\<close>

definition select_cities :: "store \<Rightarrow> string list" where
  "select_cities s = sort (remdups (map city s))"

text \<open>\<^verbatim>\<open>SELECT year, population FROM population WHERE city = ? ORDER BY year\<close>\<close>

definition select_series :: "store \<Rightarrow> string \<Rightarrow> (int \<times> int) list" where
  "select_series s c =
     sort_key fst (map (\<lambda>r. (year r, population r)) (filter (\<lambda>r. city r = c) s))"

text \<open>The value stored under a key, if any (the first row holding it).\<close>

definition lookup :: "store \<Rightarrow> string \<times> int \<Rightarrow> int option" where
  "lookup s k = map_of (map (\<lambda>r. (key r, population r)) s) k"

section \<open>The program state\<close>

text \<open>
  Besides the table, the program reads and writes the state of the \<^verbatim>\<open>random\<close>
  module's shared generator, the lines waiting on standard input, and what it has shown
  (printed lines, prompts, the chart).
\<close>

datatype event =
    Print string
  | Prompt string
  | Plot string "int list" "int list"

record 'g world =
  db :: store
  gen :: 'g
  stdin :: "string list"
  shown :: "event list"

section \<open>Seeding: \<^verbatim>\<open>insert_2023_data\<close>\<close>

definition cities :: "(string \<times> int) list" where
  "cities =
    [(''Jacksonville'', 985000),
     (''Miami'', 451000),
     (''Tampa'', 398000),
     (''Orlando'', 317000),
     (''St. Petersburg'', 261000),
     (''Hialeah'', 220000),
     (''Tallahassee'', 202000),
     (''Port St. Lucie'', 241000),
     (''Cape Coral'', 216000),
     (''Fort Lauderdale'', 184000)]"

text \<open>The loop over \<^verbatim>\<open>cities.items()\<close>, which runs in the dictionary's insertion order.\<close>

fun insert_items :: "(string \<times> int) list \<Rightarrow> store \<Rightarrow> store" where
  "insert_items [] s = s"
| "insert_items ((c, pop) # items) s = insert_items items (insert_or_ignore (c, 2023, pop) s)"

definition insert_2023_data :: "'g world \<Rightarrow> 'g world" where
  "insert_2023_data w = w\<lparr>db := insert_items cities (db w)\<rparr>"

section \<open>Simulation: \<^verbatim>\<open>simulate_growth\<close>\<close>

text \<open>
  The \<^verbatim>\<open>random\<close> module is a library, not part of the program, so it is a parameter:
  \<open>random_seed\<close> is \<^verbatim>\<open>random.seed\<close>, which sets the shared generator to a state
  fixed by the seed, and \<open>random_random\<close> is \<^verbatim>\<open>random.random\<close>, which returns a
  number in \<open>[0, 1)\<close> and the generator's next state.
\<close>

record 'g random_module =
  random_seed :: "int \<Rightarrow> 'g"
  random_random :: "'g \<Rightarrow> real \<times> 'g"

text \<open>\<^verbatim>\<open>random.uniform(a, b)\<close> is \<^verbatim>\<open>a + (b - a) * self.random()\<close>.\<close>

definition random_uniform :: "'g random_module \<Rightarrow> real \<Rightarrow> real \<Rightarrow> 'g \<Rightarrow> real \<times> 'g" where
  "random_uniform M a b g = (case random_random M g of (u, g') \<Rightarrow> (a + (b - a) * u, g'))"

text \<open>Python 3's \<^verbatim>\<open>round\<close> to an integer: to the nearest, a tie to the even neighbour.\<close>

definition round_py :: "real \<Rightarrow> int" where
  "round_py x =
     (let f = \<lfloor>x\<rfloor>; d = x - of_int f
      in if d < 1 / 2 then f
         else if 1 / 2 < d then f + 1
         else if even f then f else f + 1)"

text \<open>\<^verbatim>\<open>max(1, int(round(population * (1 + growth_rate))))\<close>\<close>

definition grow :: "int \<Rightarrow> real \<Rightarrow> int" where
  "grow pop growth_rate = max 1 (round_py (of_int pop * (1 + growth_rate)))"

text \<open>\<^verbatim>\<open>range(a, b)\<close>\<close>

definition range_py :: "int \<Rightarrow> int \<Rightarrow> int list" where
  "range_py a b = [a..b - 1]"

text \<open>
  The inner loop, over the years of one city. It carries the running population, the
  table and the generator.
\<close>

fun year_loop ::
  "'g random_module \<Rightarrow> real \<Rightarrow> real \<Rightarrow> string \<Rightarrow> int list \<Rightarrow> int \<Rightarrow> store \<times> 'g \<Rightarrow> store \<times> 'g"
where
  "year_loop M rate_min rate_max c [] pop (s, g) = (s, g)"
| "year_loop M rate_min rate_max c (y # ys) pop (s, g) =
     (case random_uniform M rate_min rate_max g of
        (growth_rate, g') \<Rightarrow>
          let pop' = grow pop growth_rate
          in year_loop M rate_min rate_max c ys pop' (insert_or_replace (c, y, pop') s, g'))"

text \<open>The outer loop, over the rows fetched before the loop starts.\<close>

fun city_loop ::
  "'g random_module \<Rightarrow> real \<Rightarrow> real \<Rightarrow> int list \<Rightarrow> (string \<times> int) list \<Rightarrow> store \<times> 'g \<Rightarrow> store \<times> 'g"
where
  "city_loop M rate_min rate_max ys [] sg = sg"
| "city_loop M rate_min rate_max ys ((c, pop) # rows) sg =
     city_loop M rate_min rate_max ys rows (year_loop M rate_min rate_max c ys pop sg)"

definition simulate_growth ::
  "'g random_module \<Rightarrow> int \<Rightarrow> int \<Rightarrow> real \<Rightarrow> real \<Rightarrow> int \<Rightarrow> 'g world \<Rightarrow> 'g world"
where
  "simulate_growth M start_year years rate_min rate_max rng_seed w =
     (let rows = select_2023 (db w);
          g = random_seed M rng_seed;
          (s', g') = city_loop M rate_min rate_max (range_py start_year (start_year + years)) rows
                       (db w, g)
      in w\<lparr>db := s', gen := g'\<rparr>)"

text \<open>
  A small generator to run the simulation on: its state counts the draws, and the
  draws cycle through the sixteenths.
\<close>

definition counter_random :: "nat random_module" where
  "counter_random =
     \<lparr>random_seed = (\<lambda>n. nat \<bar>n\<bar>),
      random_random = (\<lambda>g. (real ((7 * g + 3) mod 16) / 16, Suc g))\<rparr>"

section \<open>Rendering: \<^verbatim>\<open>show_city_plot\<close>\<close>

text \<open>
  \<^verbatim>\<open>str.strip()\<close> removes the whitespace code points at both ends. These are their
  UTF-8 encodings: U+0009 to U+000D, U+001C to U+0020, U+0085, U+00A0, U+1680,
  U+2000 to U+200A, U+2028, U+2029, U+202F, U+205F and U+3000.
\<close>

definition whitespace :: "string list" where
  "whitespace =
    [[CHR 0x09], [CHR 0x0A], [CHR 0x0B], [CHR 0x0C], [CHR 0x0D],
     [CHR 0x1C], [CHR 0x1D], [CHR 0x1E], [CHR 0x1F], [CHR 0x20],
     [CHR 0xC2, CHR 0x85], [CHR 0xC2, CHR 0xA0],
     [CHR 0xE1, CHR 0x9A, CHR 0x80],
     [CHR 0xE2, CHR 0x80, CHR 0x80], [CHR 0xE2, CHR 0x80, CHR 0x81],
     [CHR 0xE2, CHR 0x80, CHR 0x82], [CHR 0xE2, CHR 0x80, CHR 0x83],
     [CHR 0xE2, CHR 0x80, CHR 0x84], [CHR 0xE2, CHR 0x80, CHR 0x85],
     [CHR 0xE2, CHR 0x80, CHR 0x86], [CHR 0xE2, CHR 0x80, CHR 0x87],
     [CHR 0xE2, CHR 0x80, CHR 0x88], [CHR 0xE2, CHR 0x80, CHR 0x89],
     [CHR 0xE2, CHR 0x80, CHR 0x8A],
     [CHR 0xE2, CHR 0x80, CHR 0xA8], [CHR 0xE2, CHR 0x80, CHR 0xA9],
     [CHR 0xE2, CHR 0x80, CHR 0xAF],
     [CHR 0xE2, CHR 0x81, CHR 0x9F],
     [CHR 0xE3, CHR 0x80, CHR 0x80]]"

text \<open>Remove from the front of a string every leading occurrence of a sequence of the table.\<close>

function strip_front :: "string list \<Rightarrow> string \<Rightarrow> string" where
  "strip_front ws s =
     (case filter (\<lambda>w. w \<noteq> [] \<and> take (length w) s = w) ws of
        [] \<Rightarrow> s
      | w # _ \<Rightarrow> strip_front ws (drop (length w) s))"
  by pat_completeness auto
termination
proof (relation "measure (\<lambda>(ws, s). length s)")
  show "wf (measure (\<lambda>(ws, s). length s))"
    by simp
next
  fix ws :: "string list" and s w :: string and rest :: "string list"
  assume "filter (\<lambda>w. w \<noteq> [] \<and> take (length w) s = w) ws = w # rest"
  then have "w \<noteq> [] \<and> take (length w) s = w"
    by (metis (mono_tags, lifting) Cons_eq_filterD)
  then have "s \<noteq> []" and "0 < length w"
    by auto
  then show "((ws, drop (length w) s), (ws, s)) \<in> measure (\<lambda>(ws, s). length s)"
    by simp
qed

declare strip_front.simps [simp del]

definition strip :: "string \<Rightarrow> string" where
  "strip s = rev (strip_front (map rev whitespace) (rev (strip_front whitespace s)))"

datatype py_error = EOFError

definition prompt :: string where
  "prompt = CHR 0x0A # ''Type a city name exactly as shown: ''"

definition invalid_city :: string where
  "invalid_city =
     ''Invalid city '' @ [CHR 0xE2, CHR 0x80, CHR 0x94] @ '' showing first city instead.''"

text \<open>
  The result is the exception that ended the call, if one did, and the state it left.
  \<^verbatim>\<open>input\<close> shows its prompt and takes the next line of standard input, or raises
  \<^verbatim>\<open>EOFError\<close> when there is none.
\<close>

definition show_city_plot :: "'g world \<Rightarrow> py_error option \<times> 'g world" where
  "show_city_plot w =
     (case select_cities (db w) of
        [] \<Rightarrow>
          (None, w\<lparr>shown := shown w @ [Print ''No cities found. Did you insert the 2023 data?'']\<rparr>)
      | first # others \<Rightarrow>
          let listed = shown w @ Print (CHR 0x0A # ''Available cities:'')
                         # map (\<lambda>c. Print (''- '' @ c)) (first # others) @ [Prompt prompt]
          in (case stdin w of
                [] \<Rightarrow> (Some EOFError, w\<lparr>shown := listed\<rparr>)
              | line # rest \<Rightarrow>
                  let typed = strip line;
                      invalid = typed \<notin> set (first # others);
                      choice = (if invalid then first else typed);
                      data = select_series (db w) choice
                  in (None,
                      w\<lparr>stdin := rest,
                        shown := listed @ (if invalid then [Print invalid_city] else [])
                          @ [Plot (''Population Growth for '' @ choice)
                               (map fst data) (map snd data)]\<rparr>)))"

section \<open>The steps of a simulation run\<close>

text \<open>
  To speak of the draws and of the rows a run writes, the same two loops are followed
  once more, now recording each pass through the inner loop's body: the city, the year,
  the growth rate drawn and the population written. \<open>nth_state M g k\<close> is the generator
  after \<open>k\<close> draws from \<open>g\<close>, and \<open>nth_rate M a b g k\<close> is the rate that draw number \<open>k\<close>
  (counting from 0) from \<open>g\<close> gives. That the loops of \<open>simulate_growth\<close> write exactly the
  recorded rows, in this order, is proved below (\<open>simulate_growth_db\<close>).
\<close>

fun nth_state :: "'g random_module \<Rightarrow> 'g \<Rightarrow> nat \<Rightarrow> 'g" where
  "nth_state M g 0 = g"
| "nth_state M g (Suc k) = nth_state M (snd (random_random M g)) k"

definition nth_rate :: "'g random_module \<Rightarrow> real \<Rightarrow> real \<Rightarrow> 'g \<Rightarrow> nat \<Rightarrow> real" where
  "nth_rate M a b g k = fst (random_uniform M a b (nth_state M g k))"

text \<open>A step: city, year, growth rate drawn, population written.\<close>

type_synonym step = "string \<times> int \<times> real \<times> int"

definition step_key :: "step \<Rightarrow> string \<times> int" where
  "step_key st = (fst st, fst (snd st))"

definition step_pop :: "step \<Rightarrow> int" where
  "step_pop st = snd (snd (snd st))"

text \<open>The row a step writes.\<close>

definition written :: "step \<Rightarrow> row" where
  "written st = (fst st, fst (snd st), snd (snd (snd st)))"

fun year_steps ::
  "'g random_module \<Rightarrow> real \<Rightarrow> real \<Rightarrow> string \<Rightarrow> int list \<Rightarrow> int \<Rightarrow> 'g \<Rightarrow> step list"
where
  "year_steps M rate_min rate_max c [] pop g = []"
| "year_steps M rate_min rate_max c (y # ys) pop g =
     (case random_uniform M rate_min rate_max g of
        (growth_rate, g') \<Rightarrow>
          let pop' = grow pop growth_rate
          in (c, y, growth_rate, pop') # year_steps M rate_min rate_max c ys pop' g')"

fun city_steps ::
  "'g random_module \<Rightarrow> real \<Rightarrow> real \<Rightarrow> int list \<Rightarrow> (string \<times> int) list \<Rightarrow> 'g \<Rightarrow> step list"
where
  "city_steps M rate_min rate_max ys [] g = []"
| "city_steps M rate_min rate_max ys ((c, pop) # rows) g =
     year_steps M rate_min rate_max c ys pop g
       @ city_steps M rate_min rate_max ys rows (nth_state M g (length ys))"

definition simulation_steps ::
  "'g random_module \<Rightarrow> int \<Rightarrow> int \<Rightarrow> real \<Rightarrow> real \<Rightarrow> int \<Rightarrow> 'g world \<Rightarrow> step list"
where
  "simulation_steps M start_year years rate_min rate_max rng_seed w =
     city_steps M rate_min rate_max (range_py start_year (start_year + years))
       (select_2023 (db w)) (random_seed M rng_seed)"

text \<open>A sequence of \<^verbatim>\<open>INSERT OR REPLACE\<close> statements, run in order.\<close>

definition write_all :: "store \<Rightarrow> row list \<Rightarrow> store" where
  "write_all s rs = foldl (\<lambda>s r. insert_or_replace r s) s rs"

section \<open>Example states\<close>

text \<open>
  States to run the program on, with the state of \<open>counter_random\<close> as generator: no
  table rows at all, and the table seeding makes of it.
\<close>

definition empty_world :: "nat world" where
  "empty_world = \<lparr>db = [], gen = 0, stdin = [], shown = []\<rparr>"

definition seeded_world :: "nat world" where
  "seeded_world = insert_2023_data empty_world"

text \<open>Three cities in two orders.\<close>

definition three_cities :: "nat world" where
  "three_cities =
     \<lparr>db = [(''Jacksonville'', 2023, 985000), (''Miami'', 2023, 451000),
            (''Tampa'', 2023, 398000)],
      gen = 0, stdin = [], shown = []\<rparr>"

definition three_cities_swapped :: "nat world" where
  "three_cities_swapped =
     \<lparr>db = [(''Miami'', 2023, 451000), (''Jacksonville'', 2023, 985000),
            (''Tampa'', 2023, 398000)],
      gen = 7, stdin = [''Tampa''], shown = []\<rparr>"

text \<open>The three cities among rows of other years.\<close>

definition three_cities_and_more :: "nat world" where
  "three_cities_and_more =
     \<lparr>db = [(''Jacksonville'', 2023, 985000), (''Ocala'', 2022, 63000),
            (''Miami'', 2023, 451000), (''Tampa'', 2030, 5), (''Tampa'', 2023, 398000)],
      gen = 3, stdin = [], shown = []\<rparr>"

text \<open>A city whose base value is 0.\<close>

definition ghost_town :: "nat world" where
  "ghost_town = \<lparr>db = [(''Ghost Town'', 2023, 0)], gen = 0, stdin = [], shown = []\<rparr>"

section \<open>Properties of the operations\<close>

subsection \<open>The loops write the recorded steps\<close>

lemma write_all_simps [simp]:
  "write_all s [] = s"
  "write_all s (r # rs) = write_all (insert_or_replace r s) rs"
  by (simp_all add: write_all_def)

lemma write_all_append: "write_all s (rs @ rs') = write_all (write_all s rs) rs'"
  by (simp add: write_all_def)

lemma nth_state_add: "nth_state M (nth_state M g j) k = nth_state M g (j + k)"
  by (induction j arbitrary: g) simp_all

lemma snd_random_uniform: "snd (random_uniform M a b g) = snd (random_random M g)"
  by (simp add: random_uniform_def split: prod.splits)

lemma year_loop_steps:
  "year_loop M a b c ys pop (s, g) =
     (write_all s (map written (year_steps M a b c ys pop g)), nth_state M g (length ys))"
proof (induction ys arbitrary: pop s g)
  case Nil
  show ?case by simp
next
  case (Cons y ys)
  obtain r g' where u: "random_uniform M a b g = (r, g')"
    by (cases "random_uniform M a b g")
  then have g': "g' = snd (random_random M g)"
    using snd_random_uniform [of M a b g] by simp
  show ?case
    by (simp add: u Cons.IH Let_def written_def g')
qed

lemma city_loop_steps:
  "city_loop M a b ys rows (s, g) =
     (write_all s (map written (city_steps M a b ys rows g)),
      nth_state M g (length rows * length ys))"
proof (induction rows arbitrary: s g)
  case Nil
  show ?case by simp
next
  case (Cons row rows)
  obtain c pop where row: "row = (c, pop)"
    by (cases row)
  show ?case
    by (simp add: row year_loop_steps Cons.IH write_all_append nth_state_add)
qed

lemma length_range [simp]: "length (range_py a (a + n)) = nat n"
  by (simp add: range_py_def)

lemma simulate_growth_db:
  "db (simulate_growth M sy n a b seed w) =
     write_all (db w) (map written (simulation_steps M sy n a b seed w))"
  by (simp add: simulate_growth_def simulation_steps_def city_loop_steps Let_def)

lemma simulate_growth_gen:
  "gen (simulate_growth M sy n a b seed w) =
     nth_state M (random_seed M seed) (length (select_2023 (db w)) * nat n)"
  by (simp add: simulate_growth_def city_loop_steps Let_def)

subsection \<open>The steps of one city and of all cities\<close>

lemma key_written [simp]: "key (written st) = step_key st"
  by (simp add: key_def written_def step_key_def city_def year_def)

lemma population_written [simp]: "population (written st) = step_pop st"
  by (simp add: population_def written_def step_pop_def)

lemma city_written [simp]: "city (written st) = fst st"
  by (simp add: city_def written_def)

lemma year_written [simp]: "year (written st) = fst (snd st)"
  by (simp add: year_def written_def)

lemma nth_rate_Suc:
  "nth_rate M a b g (Suc k) = nth_rate M a b (snd (random_random M g)) k"
  by (simp add: nth_rate_def)

lemma nth_rate_add:
  "nth_rate M a b (nth_state M g n) k = nth_rate M a b g (n + k)"
  by (simp add: nth_rate_def nth_state_add)

lemma length_year_steps [simp]: "length (year_steps M a b c ys pop g) = length ys"
proof (induction ys arbitrary: pop g)
  case Nil
  show ?case by simp
next
  case (Cons y ys)
  then show ?case
    by (simp add: Let_def split: prod.splits)
qed

lemma keys_year_steps: "map step_key (year_steps M a b c ys pop g) = map (Pair c) ys"
proof (induction ys arbitrary: pop g)
  case Nil
  show ?case by simp
next
  case (Cons y ys)
  then show ?case
    by (simp add: Let_def step_key_def split: prod.splits)
qed

lemma grow_ge_1: "1 \<le> grow pop r"
  by (simp add: grow_def)

lemma pops_year_steps: "st \<in> set (year_steps M a b c ys pop g) \<Longrightarrow> 1 \<le> step_pop st"
proof (induction ys arbitrary: pop g)
  case Nil
  then show ?case by simp
next
  case (Cons y ys)
  then show ?case
    by (auto simp: Let_def step_pop_def grow_ge_1 split: prod.splits)
qed

lemma map_upt_shift: "map (\<lambda>k. f (n + k)) [x..<x + m] = map f [n + x..<n + x + m]"
  by (induction m) (simp_all add: add.assoc)

lemma nth_year_steps:
  "j < length ys \<Longrightarrow>
   year_steps M a b c ys pop g ! j =
     (c, ys ! j, nth_rate M a b g j, foldl grow pop (map (nth_rate M a b g) [0..<Suc j]))"
proof (induction ys arbitrary: pop g j)
  case Nil
  then show ?case by simp
next
  case (Cons y ys)
  obtain r g' where u: "random_uniform M a b g = (r, g')"
    by (cases "random_uniform M a b g")
  have g': "g' = snd (random_random M g)"
    using u snd_random_uniform [of M a b g] by simp
  have r: "r = nth_rate M a b g 0"
    using u by (simp add: nth_rate_def)
  show ?case
  proof (cases j)
    case 0
    then show ?thesis
      by (simp add: u Let_def r)
  next
    case (Suc j')
    then have j': "j' < length ys"
      using Cons.prems by simp
    have shift: "map (nth_rate M a b g) [Suc 0..<Suc (Suc j')] = map (nth_rate M a b g') [0..<Suc j']"
      using map_upt_shift [of "nth_rate M a b g" 1 0 "Suc j'"]
      by (simp add: nth_rate_Suc g' del: upt_Suc)
    have "map (nth_rate M a b g) [0..<Suc (Suc j')]
            = nth_rate M a b g 0 # map (nth_rate M a b g') [0..<Suc j']"
      using shift by (simp add: upt_rec [of 0] del: upt_Suc)
    then show ?thesis
      using Cons.IH [OF j', of "grow pop r" g']
      by (simp add: Suc u Let_def r nth_rate_Suc g' del: upt_Suc)
  qed
qed

lemma length_city_steps [simp]:
  "length (city_steps M a b ys rows g) = length rows * length ys"
  by (induction rows arbitrary: g) auto

lemma keys_city_steps:
  "map step_key (city_steps M a b ys rows g) = concat (map (\<lambda>row. map (Pair (fst row)) ys) rows)"
  by (induction rows arbitrary: g) (auto simp: keys_year_steps)

lemma pops_city_steps: "st \<in> set (city_steps M a b ys rows g) \<Longrightarrow> 1 \<le> step_pop st"
  by (induction rows arbitrary: g) (auto dest: pops_year_steps)

lemma nth_city_steps:
  "i < length rows \<Longrightarrow> j < length ys \<Longrightarrow>
   city_steps M a b ys rows g ! (i * length ys + j) =
     (fst (rows ! i), ys ! j, nth_rate M a b g (i * length ys + j),
      foldl grow (snd (rows ! i))
        (map (nth_rate M a b g) [i * length ys..<i * length ys + Suc j]))"
proof (induction rows arbitrary: g i)
  case Nil
  then show ?case by simp
next
  case (Cons row rows)
  obtain c pop where row: "row = (c, pop)"
    by (cases row)
  show ?case
  proof (cases i)
    case 0
    then show ?thesis
      using Cons.prems nth_year_steps [of j ys M a b c pop g]
      by (simp add: row nth_append del: upt_Suc)
  next
    case (Suc i')
    then have i': "i' < length rows"
      using Cons.prems by simp
    let ?n = "length ys"
    have idx: "Suc i' * ?n + j = ?n + (i' * ?n + j)"
      by simp
    have "city_steps M a b ys (row # rows) g ! (Suc i' * ?n + j)
            = city_steps M a b ys rows (nth_state M g ?n) ! (i' * ?n + j)"
      unfolding idx by (simp add: row nth_append)
    also have "\<dots> = (fst (rows ! i'), ys ! j, nth_rate M a b (nth_state M g ?n) (i' * ?n + j),
        foldl grow (snd (rows ! i'))
          (map (nth_rate M a b (nth_state M g ?n)) [i' * ?n..<i' * ?n + Suc j]))"
      using Cons.IH [OF i' Cons.prems(2)] .
    also have "map (nth_rate M a b (nth_state M g ?n)) [i' * ?n..<i' * ?n + Suc j]
                 = map (nth_rate M a b g) [Suc i' * ?n..<Suc i' * ?n + Suc j]"
    proof -
      have "nth_rate M a b (nth_state M g ?n) = (\<lambda>k. nth_rate M a b g (?n + k))"
        by (simp add: fun_eq_iff nth_rate_add)
      then show ?thesis
        using map_upt_shift [of "nth_rate M a b g" ?n "i' * ?n" "Suc j"]
        by (simp del: upt_Suc)
    qed
    finally show ?thesis
      by (simp add: Suc nth_rate_add add.assoc del: upt_Suc)
  qed
qed

subsection \<open>Seeding and the list of cities\<close>

lemma key_triple [simp]: "key (c, y, p) = (c, y)"
  by (simp add: key_def city_def year_def)

lemma keys_insert_or_ignore:
  "key ` set (insert_or_ignore r s) = insert (key r) (key ` set s)"
proof (cases "key r \<in> key ` set s")
  case True
  then show ?thesis
    by (simp add: insert_or_ignore_def insert_absorb)
next
  case False
  then show ?thesis
    by (simp add: insert_or_ignore_def)
qed

lemma keys_insert_items:
  "key ` set (insert_items items s) = key ` set s \<union> (\<lambda>item. (fst item, 2023)) ` set items"
proof (induction items arbitrary: s)
  case Nil
  show ?case by simp
next
  case (Cons item items)
  obtain c pop where item: "item = (c, pop)"
    by (cases item)
  show ?case
    by (simp add: item Cons.IH keys_insert_or_ignore)
qed

lemma insert_items_present:
  "(\<lambda>item. (fst item, 2023)) ` set items \<subseteq> key ` set s \<Longrightarrow> insert_items items s = s"
proof (induction items arbitrary: s)
  case Nil
  show ?case by simp
next
  case (Cons item items)
  obtain c pop where item: "item = (c, pop)"
    by (cases item)
  have "insert_or_ignore (c, 2023, pop) s = s"
    using Cons.prems by (auto simp: item insert_or_ignore_def)
  then show ?case
    using Cons by (simp add: item)
qed

lemma set_select_cities: "set (select_cities s) = city ` set s"
  by (simp add: select_cities_def)

lemma select_cities_empty: "select_cities s = [] \<longleftrightarrow> s = []"
  using set_select_cities [of s] by (metis image_is_empty set_empty)

subsection \<open>The table after a sequence of writes\<close>

lemma write_all_snoc: "write_all s (rs @ [r]) = insert_or_replace r (write_all s rs)"
  by (simp add: write_all_def)

lemma set_insert_or_replace:
  "set (insert_or_replace r s) = insert r {r' \<in> set s. key r' \<noteq> key r}"
  by (auto simp: insert_or_replace_def)

lemma lookup_filter_key:
  "lookup (filter (\<lambda>r'. key r' \<noteq> k') s) k = (if k = k' then None else lookup s k)"
  by (induction s) (auto simp: lookup_def)

lemma lookup_insert_or_replace:
  "lookup (insert_or_replace r s) k = (if k = key r then Some (population r) else lookup s k)"
proof -
  have "lookup (insert_or_replace r s) k
          = (case lookup (filter (\<lambda>r'. key r' \<noteq> key r) s) k of
               None \<Rightarrow> [key r \<mapsto> population r] k
             | Some v \<Rightarrow> Some v)"
    by (simp add: lookup_def insert_or_replace_def map_add_def)
  then show ?thesis
    by (auto simp: lookup_filter_key split: option.splits)
qed

lemma in_write_all:
  "r \<in> set (write_all s rs) \<Longrightarrow> r \<in> set rs \<or> (r \<in> set s \<and> key r \<notin> key ` set rs)"
proof (induction rs rule: rev_induct)
  case Nil
  then show ?case by simp
next
  case (snoc x rs)
  then show ?case
    by (auto simp: write_all_snoc set_insert_or_replace)
qed

lemma lookup_write_all_other:
  "k \<notin> key ` set rs \<Longrightarrow> lookup (write_all s rs) k = lookup s k"
  by (induction rs rule: rev_induct) (auto simp: write_all_snoc lookup_insert_or_replace)

lemma lookup_write_all:
  "distinct (map key rs) \<Longrightarrow> r \<in> set rs \<Longrightarrow>
   lookup (write_all s rs) (key r) = Some (population r)"
proof (induction rs rule: rev_induct)
  case Nil
  then show ?case by simp
next
  case (snoc x rs)
  show ?case
  proof (cases "r = x")
    case True
    then show ?thesis
      by (simp add: write_all_snoc lookup_insert_or_replace)
  next
    case False
    then have r: "r \<in> set rs"
      using snoc.prems by simp
    then have "key r \<in> key ` set rs"
      by (rule imageI)
    moreover have "key x \<notin> key ` set rs"
      using snoc.prems(1) by simp
    ultimately have "key r \<noteq> key x"
      by metis
    then show ?thesis
      using snoc.IH r snoc.prems(1)
      by (simp add: write_all_snoc lookup_insert_or_replace)
  qed
qed

lemma filter_city_write_all:
  "c \<notin> city ` set rs \<Longrightarrow>
   filter (\<lambda>r. city r = c) (write_all s rs) = filter (\<lambda>r. city r = c) s"
proof (induction rs rule: rev_induct)
  case Nil
  show ?case by simp
next
  case (snoc x rs)
  have "filter (\<lambda>r. city r = c) (insert_or_replace x (write_all s rs))
          = filter (\<lambda>r. city r = c) (write_all s rs)"
    using snoc.prems
    by (auto simp: insert_or_replace_def key_def intro!: filter_cong)
  then show ?case
    using snoc by (simp add: write_all_snoc)
qed

subsection \<open>The table after a simulation run\<close>

lemma distinct_step_keys:
  "distinct (map fst rows) \<Longrightarrow> distinct ys \<Longrightarrow>
   distinct (concat (map (\<lambda>row. map (Pair (fst row)) ys) rows))"
proof (induction rows)
  case Nil
  show ?case by simp
next
  case (Cons row rows)
  then show ?case
    by (auto simp: distinct_map inj_on_def)
qed

lemma distinct_select_2023: "primary_key s \<Longrightarrow> distinct (map fst (select_2023 s))"
proof -
  assume "primary_key s"
  then have "distinct (map key (filter (\<lambda>r. year r = 2023) s))"
    by (simp add: primary_key_def distinct_map_filter)
  moreover have "map key (filter (\<lambda>r. year r = 2023) s)
      = map (\<lambda>c. (c, 2023)) (map city (filter (\<lambda>r. year r = 2023) s))"
    by (simp add: key_def)
  ultimately have "distinct (map city (filter (\<lambda>r. year r = 2023) s))"
    by (metis distinct_map)
  then show ?thesis
    by (simp add: select_2023_def comp_def)
qed

lemma distinct_range [simp]: "distinct (range_py a b)"
  by (simp add: range_py_def)

lemma nth_range: "j < nat n \<Longrightarrow> range_py a (a + n) ! j = a + int j"
  by (simp add: range_py_def)

lemma set_range: "set (range_py a b) = {y. a \<le> y \<and> y < b}"
  by (auto simp: range_py_def)

lemma step_keys_simulation:
  "map step_key (simulation_steps M sy n a b seed w) =
     concat (map (\<lambda>row. map (Pair (fst row)) (range_py sy (sy + n))) (select_2023 (db w)))"
  by (simp add: simulation_steps_def keys_city_steps)

lemma distinct_simulation_keys:
  "primary_key (db w) \<Longrightarrow> distinct (map key (map written (simulation_steps M sy n a b seed w)))"
proof -
  assume "primary_key (db w)"
  then have "distinct (map step_key (simulation_steps M sy n a b seed w))"
    unfolding step_keys_simulation
    by (intro distinct_step_keys distinct_select_2023) simp_all
  then show ?thesis
    by (simp add: comp_def)
qed

lemma nth_simulation_steps:
  assumes "i < length (select_2023 (db w))" and "j < nat n"
  shows "simulation_steps M sy n a b seed w ! (i * nat n + j) =
     (fst (select_2023 (db w) ! i), sy + int j,
      nth_rate M a b (random_seed M seed) (i * nat n + j),
      foldl grow (snd (select_2023 (db w) ! i))
        (map (nth_rate M a b (random_seed M seed)) [i * nat n..<i * nat n + Suc j]))"
  using nth_city_steps [of i "select_2023 (db w)" j "range_py sy (sy + n)" M a b "random_seed M seed"]
    assms
  by (simp add: simulation_steps_def nth_range del: upt_Suc)

lemma length_simulation_steps [simp]:
  "length (simulation_steps M sy n a b seed w) = length (select_2023 (db w)) * nat n"
  by (simp add: simulation_steps_def)

lemma lookup_simulated:
  assumes pk: "primary_key (db w)"
    and i: "i < length (select_2023 (db w))" and j: "j < nat n"
  shows "lookup (db (simulate_growth M sy n a b seed w)) (fst (select_2023 (db w) ! i), sy + int j)
    = Some (foldl grow (snd (select_2023 (db w) ! i))
        (map (nth_rate M a b (random_seed M seed)) [i * nat n..<i * nat n + Suc j]))"
proof -
  let ?steps = "simulation_steps M sy n a b seed w"
  let ?st = "?steps ! (i * nat n + j)"
  have "i * nat n + j < length (select_2023 (db w)) * nat n"
  proof -
    have "i * nat n + j < i * nat n + nat n"
      using j by simp
    also have "\<dots> = Suc i * nat n"
      by simp
    also have "\<dots> \<le> length (select_2023 (db w)) * nat n"
      using i by (intro mult_le_mono1) simp
    finally show ?thesis .
  qed
  then have mem: "written ?st \<in> set (map written ?steps)"
    by simp
  have "lookup (write_all (db w) (map written ?steps)) (key (written ?st))
          = Some (population (written ?st))"
    using distinct_simulation_keys [OF pk] mem by (rule lookup_write_all)
  then show ?thesis
    by (simp add: simulate_growth_db nth_simulation_steps [OF i j] step_key_def step_pop_def
        del: upt_Suc)
qed

subsection \<open>Fixed rates\<close>

lemma nth_rate_fixed: "nth_rate M r r g k = r"
  by (simp add: nth_rate_def random_uniform_def split: prod.splits)

lemma round_py_of_int: "round_py (of_int p) = p"
  by (simp add: round_py_def)

lemma grow_zero: "1 \<le> p \<Longrightarrow> grow p 0 = p"
  by (simp add: grow_def round_py_of_int)

lemma foldl_grow_zero: "1 \<le> p \<Longrightarrow> foldl grow p (map (\<lambda>k. 0) ks) = p"
  by (induction ks) (simp_all add: grow_zero)

lemma set_step_keys:
  "set (map step_key (simulation_steps M sy n a b seed w)) =
     fst ` set (select_2023 (db w)) \<times> {y. sy \<le> y \<and> y < sy + n}"
  unfolding step_keys_simulation by (auto simp: set_range)

lemma key_written_image:
  "key ` set (map written steps) = set (map step_key steps)"
  by (simp add: image_image)

lemma city_written_image:
  "city ` set (map written steps) = fst ` set (map step_key steps)"
  by (simp add: image_image step_key_def)

lemma pops_simulation_steps:
  "st \<in> set (simulation_steps M sy n a b seed w) \<Longrightarrow> 1 \<le> step_pop st"
  unfolding simulation_steps_def by (rule pops_city_steps)

lemma cities_select_2023:
  "fst ` set (select_2023 s) = city ` {r \<in> set s. year r = 2023}"
  by (simp add: select_2023_def image_image)

lemma select_2023_iff: "(c, p) \<in> set (select_2023 s) \<longleftrightarrow> (c, 2023, p) \<in> set s"
  by (force simp: select_2023_def city_def year_def population_def)

subsection \<open>The first city and its series\<close>

lemma sorted_hd_le: "sorted xs \<Longrightarrow> x \<in> set xs \<Longrightarrow> hd xs \<le> x"
  by (cases xs) auto

lemma hd_select_cities_least:
  "c \<in> set (select_cities s) \<Longrightarrow> hd (select_cities s) \<le> c"
  by (rule sorted_hd_le) (simp_all add: select_cities_def)

lemma select_series_nonempty:
  "c \<in> set (select_cities s) \<Longrightarrow> select_series s c \<noteq> []"
proof -
  assume "c \<in> set (select_cities s)"
  then have "filter (\<lambda>r. city r = c) s \<noteq> []"
    by (auto simp: set_select_cities filter_empty_conv)
  then have "length (select_series s c) \<noteq> 0"
    by (simp add: select_series_def)
  then show ?thesis
    by auto
qed

subsection \<open>The seeded table\<close>

lemma insert_items_fresh:
  "insert_items cities [] = map (\<lambda>item. (fst item, 2023, snd item)) cities"
  by (simp add: cities_def insert_or_ignore_def)

lemma distinct_cities: "distinct (map fst cities)"
  by (simp add: cities_def)

lemma primary_key_seeded:
  "distinct (map fst items) \<Longrightarrow> primary_key (map (\<lambda>item. (fst item, 2023, snd item)) items)"
proof -
  assume "distinct (map fst items)"
  moreover have "map key (map (\<lambda>item. (fst item, 2023, snd item)) items)
      = map (\<lambda>c. (c, 2023)) (map fst items)"
    by simp
  moreover have "inj_on (\<lambda>c. (c, 2023::int)) (set (map fst items))"
    by (simp add: inj_on_def)
  ultimately show ?thesis
    unfolding primary_key_def by (metis distinct_map)
qed

lemma lookup_seeded:
  "distinct (map fst items) \<Longrightarrow> (c, v) \<in> set items \<Longrightarrow>
   lookup (map (\<lambda>item. (fst item, 2023, snd item)) items) (c, 2023) = Some v"
proof -
  assume d: "distinct (map fst items)" and m: "(c, v) \<in> set items"
  let ?kv = "map (\<lambda>r. (key r, population r)) (map (\<lambda>item. (fst item, 2023, snd item)) items)"
  have "distinct (map fst ?kv)"
    using primary_key_seeded [OF d] by (simp add: primary_key_def comp_def)
  moreover have "((c, 2023), v) \<in> set ?kv"
    using m by (force simp: population_def)
  ultimately show ?thesis
    unfolding lookup_def by (rule map_of_is_SomeI)
qed

subsection \<open>Keys and the primary key under the updates\<close>

lemma keys_insert_or_replace:
  "key ` set (insert_or_replace r s) = insert (key r) (key ` set s)"
  by (auto simp: set_insert_or_replace)

lemma keys_write_all: "key ` set (write_all s rs) = key ` set s \<union> key ` set rs"
  by (induction rs rule: rev_induct) (auto simp: write_all_snoc keys_insert_or_replace)

lemma primary_key_insert_or_replace:
  "primary_key s \<Longrightarrow> primary_key (insert_or_replace r s)"
  by (auto simp: primary_key_def insert_or_replace_def distinct_map_filter)

lemma primary_key_write_all: "primary_key s \<Longrightarrow> primary_key (write_all s rs)"
  by (induction rs rule: rev_induct) (simp_all add: write_all_snoc primary_key_insert_or_replace)

lemma primary_key_insert_or_ignore:
  "primary_key s \<Longrightarrow> primary_key (insert_or_ignore r s)"
  by (simp add: primary_key_def insert_or_ignore_def)

lemma primary_key_insert_items: "primary_key s \<Longrightarrow> primary_key (insert_items items s)"
proof (induction items arbitrary: s)
  case Nil
  then show ?case by simp
next
  case (Cons item items)
  obtain c pop where item: "item = (c, pop)"
    by (cases item)
  show ?case
    using Cons by (simp add: item primary_key_insert_or_ignore)
qed

lemma years_of_city_distinct:
  "primary_key s \<Longrightarrow> distinct (map year (filter (\<lambda>r. city r = c) s))"
proof -
  assume "primary_key s"
  then have "distinct (map key (filter (\<lambda>r. city r = c) s))"
    by (simp add: primary_key_def distinct_map_filter)
  moreover have "map key (filter (\<lambda>r. city r = c) s)
      = map (Pair c) (map year (filter (\<lambda>r. city r = c) s))"
    by (simp add: key_def)
  ultimately show ?thesis
    by (metis distinct_map)
qed

lemma years_of_city_set:
  "set (map year (filter (\<lambda>r. city r = c) s)) = {y. (c, y) \<in> key ` set s}"
  by (auto simp: key_def image_iff)

lemma distinct_map_sort_key: "distinct (map f xs) \<Longrightarrow> distinct (map f (sort_key g xs))"
  by (simp add: distinct_map)

lemma select_series_years:
  assumes "primary_key s" and "{y. (c, y) \<in> key ` set s} = {a..b}"
  shows "map fst (select_series s c) = [a..b]"
proof -
  let ?rows = "filter (\<lambda>r. city r = c) s"
  let ?series = "map (\<lambda>r. (year r, population r)) ?rows"
  have fst_series: "map fst ?series = map year ?rows"
    by (simp add: comp_def)
  have "distinct (map fst ?series)"
    unfolding fst_series using assms(1) by (rule years_of_city_distinct)
  then have "distinct (map fst (sort_key fst ?series))"
    by (rule distinct_map_sort_key)
  moreover have "sorted (map fst (sort_key fst ?series))"
    by (rule sorted_sort_key)
  moreover have "set (map fst (sort_key fst ?series)) = {a..b}"
  proof -
    have "set (map fst (sort_key fst ?series)) = set (map fst ?series)"
      by (simp only: set_map set_sort)
    also have "\<dots> = {y. (c, y) \<in> key ` set s}"
      unfolding fst_series by (rule years_of_city_set)
    finally show ?thesis
      using assms(2) by simp
  qed
  moreover have "sorted [a..b]" and "distinct [a..b]" and "set [a..b] = {a..b}"
    by simp_all
  ultimately have "map fst (sort_key fst ?series) = [a..b]"
    by (metis sorted_distinct_set_unique)
  then show ?thesis
    by (simp add: select_series_def)
qed

lemma rows_of_city_length:
  assumes "primary_key s" and "{y. (c, y) \<in> key ` set s} = {a..b}"
  shows "length (filter (\<lambda>r. city r = c) s) = nat (b - a + 1)"
proof -
  have "length (filter (\<lambda>r. city r = c) s) = length (map year (filter (\<lambda>r. city r = c) s))"
    by simp
  also have "\<dots> = card (set (map year (filter (\<lambda>r. city r = c) s)))"
    using years_of_city_distinct [OF assms(1), of c] by (metis distinct_card)
  also have "\<dots> = card {a..b}"
    unfolding years_of_city_set assms(2) ..
  finally show ?thesis
    by simp
qed

section \<open>Results on seeding\<close>

text \<open>
  C6. Seeding is idempotent: running \<open>insert_2023_data\<close> a second time leaves the whole
  state, and so the table, exactly as the first run left it: no row is added and none is
  altered. This holds from any table, since after the first run every key (city, 2023) of
  the fixed list is present and \<^verbatim>\<open>INSERT OR IGNORE\<close> drops a row whose key is present.
\<close>

theorem seeding_idempotent:
  "insert_2023_data (insert_2023_data w) = insert_2023_data w"
proof -
  have "insert_items cities (insert_items cities (db w)) = insert_items cities (db w)"
    by (rule insert_items_present) (simp add: keys_insert_items)
  then show ?thesis
    by (simp add: insert_2023_data_def)
qed

theorem seeding_idempotent_witness:
  "insert_2023_data (insert_2023_data three_cities) = insert_2023_data three_cities"
  by (rule seeding_idempotent)

section \<open>Results on rendering\<close>

text \<open>
  C7, as stated, fails: the line read from standard input is stripped of surrounding
  whitespace before it is looked up, so a line that is not itself one of the listed
  cities can still select one. With the ten seeded cities, the line \<open>''Miami ''\<close> (with a
  trailing space) is not among the cities, whose first is Cape Coral, and the chart
  shown is Miami's.
\<close>

theorem padded_choice_counterexample:
  "db (seeded_world\<lparr>stdin := [''Miami '']\<rparr>) \<noteq> [] \<and>
   ''Miami '' \<notin> set (select_cities (db (seeded_world\<lparr>stdin := [''Miami '']\<rparr>))) \<and>
   hd (select_cities (db (seeded_world\<lparr>stdin := [''Miami '']\<rparr>))) = ''Cape Coral'' \<and>
   fst (show_city_plot (seeded_world\<lparr>stdin := [''Miami '']\<rparr>)) = None \<and>
   last (shown (snd (show_city_plot (seeded_world\<lparr>stdin := [''Miami '']\<rparr>))))
     = Plot ''Population Growth for Miami'' [2023] [451000]"
  by code_simp

text \<open>
  C7, amended. For every non-empty table and every line whose stripped form is not among
  the table's distinct cities, \<open>show_city_plot\<close> raises nothing, prints the list, the
  prompt and the notice, and plots the series of the first city of the sorted list. That
  city is least in the byte-wise lexicographic order among the listed ones, and its series
  is not empty.
\<close>

theorem invalid_choice_shows_first_city:
  assumes "db w \<noteq> []" and "stdin w = line # rest"
    and "strip line \<notin> set (select_cities (db w))"
  shows "show_city_plot w =
      (None,
       w\<lparr>stdin := rest,
         shown := shown w @ Print (CHR 0x0A # ''Available cities:'')
           # map (\<lambda>c. Print (''- '' @ c)) (select_cities (db w))
           @ [Prompt prompt, Print invalid_city,
              Plot (''Population Growth for '' @ hd (select_cities (db w)))
                (map fst (select_series (db w) (hd (select_cities (db w)))))
                (map snd (select_series (db w) (hd (select_cities (db w)))))]\<rparr>)
     \<and> (\<forall>c \<in> set (select_cities (db w)). hd (select_cities (db w)) \<le> c)
     \<and> select_series (db w) (hd (select_cities (db w))) \<noteq> []"
proof -
  obtain first others where cs: "select_cities (db w) = first # others"
    using assms(1) select_cities_empty [of "db w"] by (cases "select_cities (db w)") auto
  have "show_city_plot w =
      (None,
       w\<lparr>stdin := rest,
         shown := shown w @ Print (CHR 0x0A # ''Available cities:'')
           # map (\<lambda>c. Print (''- '' @ c)) (select_cities (db w))
           @ [Prompt prompt, Print invalid_city,
              Plot (''Population Growth for '' @ hd (select_cities (db w)))
                (map fst (select_series (db w) (hd (select_cities (db w)))))
                (map snd (select_series (db w) (hd (select_cities (db w)))))]\<rparr>)"
    using assms(2,3) by (simp add: show_city_plot_def cs Let_def)
  moreover have "\<forall>c \<in> set (select_cities (db w)). hd (select_cities (db w)) \<le> c"
    by (simp add: hd_select_cities_least)
  moreover have "select_series (db w) (hd (select_cities (db w))) \<noteq> []"
    by (rule select_series_nonempty) (simp add: cs)
  ultimately show ?thesis
    by blast
qed

theorem invalid_choice_shows_first_city_witness:
  "db (seeded_world\<lparr>stdin := [''Atlantis'']\<rparr>) \<noteq> [] \<and>
   stdin (seeded_world\<lparr>stdin := [''Atlantis'']\<rparr>) = ''Atlantis'' # [] \<and>
   strip ''Atlantis'' \<notin> set (select_cities (db (seeded_world\<lparr>stdin := [''Atlantis'']\<rparr>))) \<and>
   fst (show_city_plot (seeded_world\<lparr>stdin := [''Atlantis'']\<rparr>)) = None \<and>
   last (shown (snd (show_city_plot (seeded_world\<lparr>stdin := [''Atlantis'']\<rparr>))))
     = Plot ''Population Growth for Cape Coral'' [2023] [216000]"
proof -
  let ?w = "seeded_world\<lparr>stdin := [''Atlantis'']\<rparr>"
  have h1: "db ?w \<noteq> []"
    by code_simp
  have h2: "stdin ?w = ''Atlantis'' # []"
    by simp
  have h3: "strip ''Atlantis'' \<notin> set (select_cities (db ?w))"
    by code_simp
  have e1: "hd (select_cities (db seeded_world)) = ''Cape Coral''"
    by code_simp
  have e2: "select_series (db seeded_world) ''Cape Coral'' = [(2023, 216000)]"
    by code_simp
  show ?thesis
    using h1 h2 h3 invalid_choice_shows_first_city [OF h1 h2 h3]
    by (simp add: e1 e2)
qed

text \<open>
  C8. With no row in the table, \<open>show_city_plot\<close> prints the one message and returns:
  no exception, no prompt and no chart, standard input untouched, the table unchanged.
\<close>

theorem no_cities:
  assumes "db w = []"
  shows "show_city_plot w =
    (None, w\<lparr>shown := shown w @ [Print ''No cities found. Did you insert the 2023 data?'']\<rparr>)"
  using assms by (simp add: show_city_plot_def select_cities_def)

theorem no_cities_witness:
  "db empty_world = [] \<and>
   show_city_plot empty_world =
     (None,
      empty_world\<lparr>shown := shown empty_world
        @ [Print ''No cities found. Did you insert the 2023 data?'']\<rparr>)"
proof -
  have h: "db empty_world = []"
    by (simp add: empty_world_def)
  show ?thesis
    using h no_cities [OF h] by simp
qed

section \<open>Results on the simulation\<close>

text \<open>
  C1. The simulation is deterministic. Two runs with the same module, seed, start year,
  number of years and rate bounds, from tables whose base rows (the 2023 rows, in order)
  are the same, make the same steps, so write the same rows in the same order, and leave
  the generator in the same state, whatever state the shared generator (and the rest of
  the program state) was in before each run. If the two tables are the same, as two
  fresh ones are, the two runs end with the same table.
\<close>

theorem simulate_growth_deterministic:
  assumes "select_2023 (db w1) = select_2023 (db w2)"
  shows "simulation_steps M start_year years rate_min rate_max rng_seed w1
           = simulation_steps M start_year years rate_min rate_max rng_seed w2
       \<and> gen (simulate_growth M start_year years rate_min rate_max rng_seed w1)
           = gen (simulate_growth M start_year years rate_min rate_max rng_seed w2)
       \<and> (db w1 = db w2 \<longrightarrow>
            db (simulate_growth M start_year years rate_min rate_max rng_seed w1)
              = db (simulate_growth M start_year years rate_min rate_max rng_seed w2))"
proof (intro conjI impI)
  show "simulation_steps M start_year years rate_min rate_max rng_seed w1
          = simulation_steps M start_year years rate_min rate_max rng_seed w2"
    using assms by (simp add: simulation_steps_def)
  then show "db (simulate_growth M start_year years rate_min rate_max rng_seed w1)
               = db (simulate_growth M start_year years rate_min rate_max rng_seed w2)"
    if "db w1 = db w2"
    using that by (simp add: simulate_growth_db)
  show "gen (simulate_growth M start_year years rate_min rate_max rng_seed w1)
          = gen (simulate_growth M start_year years rate_min rate_max rng_seed w2)"
    using assms by (simp add: simulate_growth_gen)
qed

theorem simulate_growth_deterministic_witness:
  "select_2023 (db three_cities) = select_2023 (db three_cities_and_more) \<and>
   simulation_steps counter_random 2024 20 (-0.01) 0.03 42 three_cities
     = simulation_steps counter_random 2024 20 (-0.01) 0.03 42 three_cities_and_more \<and>
   gen (simulate_growth counter_random 2024 20 (-0.01) 0.03 42 three_cities)
     = gen (simulate_growth counter_random 2024 20 (-0.01) 0.03 42 three_cities_and_more) \<and>
   db (simulate_growth counter_random 2024 20 (-0.01) 0.03 42 three_cities)
     = db (simulate_growth counter_random 2024 20 (-0.01) 0.03 42
             (three_cities\<lparr>gen := 99, stdin := [''Miami'']\<rparr>))"
proof -
  have h1: "select_2023 (db three_cities) = select_2023 (db three_cities_and_more)"
    by code_simp
  have h2: "select_2023 (db three_cities)
      = select_2023 (db (three_cities\<lparr>gen := 99, stdin := [''Miami'']\<rparr>))"
    by simp
  have h3: "db three_cities = db (three_cities\<lparr>gen := 99, stdin := [''Miami'']\<rparr>)"
    by simp
  show ?thesis
    using h1 h3
      simulate_growth_deterministic [OF h1, of counter_random 2024 20 "-0.01" "0.03" 42]
      simulate_growth_deterministic [OF h2, of counter_random 2024 20 "-0.01" "0.03" 42]
    by blast
qed

text \<open>
  C2. Every row the simulation leaves in the table that it wrote has a population of at
  least 1: a row that was not in the table before the run, or any row of a city with a
  2023 row at a year of the simulated span. This holds for all rate bounds, so in
  particular when \<open>rate_min\<close> is at least \<open>-1\<close>, and for all base values, 0 included.
\<close>

theorem simulated_value_at_least_1:
  assumes "r \<in> set (db (simulate_growth M start_year years rate_min rate_max rng_seed w))"
    and "r \<notin> set (db w) \<or>
         (city r \<in> city ` {r' \<in> set (db w). year r' = 2023} \<and> start_year \<le> year r \<and>
          year r < start_year + years)"
  shows "1 \<le> population r"
proof -
  let ?steps = "simulation_steps M start_year years rate_min rate_max rng_seed w"
  have "r \<in> set (map written ?steps) \<or>
        (r \<in> set (db w) \<and> key r \<notin> key ` set (map written ?steps))"
    using assms(1) unfolding simulate_growth_db by (rule in_write_all)
  moreover have "key r \<in> key ` set (map written ?steps)"
    if "city r \<in> city ` {r' \<in> set (db w). year r' = 2023}" and "start_year \<le> year r"
      and "year r < start_year + years"
    unfolding key_written_image set_step_keys cities_select_2023
    using that by (simp add: key_def)
  ultimately have "r \<in> set (map written ?steps)"
    using assms(2) by blast
  then obtain st where "st \<in> set ?steps" and "r = written st"
    by auto
  then show ?thesis
    using pops_simulation_steps [of st] by simp
qed

theorem simulated_value_at_least_1_witness:
  "(''Ghost Town'', 2024, 1)
     \<in> set (db (simulate_growth counter_random 2024 2 (-0.01) 0.03 42 ghost_town)) \<and>
   (''Ghost Town'', 2024, 1) \<notin> set (db ghost_town) \<and>
   (''Ghost Town'', 2023, 0) \<in> set (db ghost_town) \<and>
   1 \<le> population (''Ghost Town'', 2024, 1)"
proof -
  have h1: "(''Ghost Town'', 2024, 1)
     \<in> set (db (simulate_growth counter_random 2024 2 (-0.01) 0.03 42 ghost_town))"
    by code_simp
  have h2: "(''Ghost Town'', 2024, 1) \<notin> set (db ghost_town)"
    by (simp add: ghost_town_def)
  have h3: "(''Ghost Town'', 2023, 0) \<in> set (db ghost_town)"
    by (simp add: ghost_town_def)
  have "1 \<le> population (''Ghost Town'', 2024, 1)"
    using h1 by (rule simulated_value_at_least_1) (simp add: h2)
  then show ?thesis
    using h1 h2 h3 by blast
qed



text \<open>
  C9. With both rate bounds 0, a city whose 2023 value is 985000 has the value 985000
  stored at every simulated year, for any number of years.
\<close>

theorem zero_rate_keeps_985000:
  assumes "primary_key (db w)" and "(E, 2023, 985000) \<in> set (db w)"
    and "start_year \<le> y" and "y < start_year + years"
  shows "lookup (db (simulate_growth M start_year years 0 0 rng_seed w)) (E, y) = Some 985000"
proof -
  obtain i where i: "i < length (select_2023 (db w))"
    and row: "select_2023 (db w) ! i = (E, 985000)"
    using assms(2) unfolding select_2023_iff [symmetric] by (auto simp: in_set_conv_nth)
  define j where "j = nat (y - start_year)"
  have j: "j < nat years" and y: "y = start_year + int j"
    using assms(3,4) by (simp_all add: j_def)
  have "nth_rate M 0 0 (random_seed M rng_seed) = (\<lambda>k. 0)"
    by (simp add: fun_eq_iff nth_rate_fixed)
  then have "foldl grow 985000 (map (nth_rate M 0 0 (random_seed M rng_seed)) ks) = 985000"
    for ks
    using foldl_grow_zero [of 985000 ks] by simp
  then show ?thesis
    using lookup_simulated [OF assms(1) i j, of M start_year 0 0 rng_seed]
    by (simp add: row y del: upt_Suc)
qed

theorem zero_rate_keeps_985000_witness:
  "primary_key (db seeded_world) \<and>
   (''Jacksonville'', 2023, 985000) \<in> set (db seeded_world) \<and>
   lookup (db (simulate_growth counter_random 2024 20 0 0 42 seeded_world))
     (''Jacksonville'', 2043) = Some 985000"
proof -
  have h1: "primary_key (db seeded_world)"
    by code_simp
  have h2: "(''Jacksonville'', 2023, 985000) \<in> set (db seeded_world)"
    by code_simp
  show ?thesis
    using h1 h2 zero_rate_keeps_985000 [OF h1 h2, of 2024 2043 20 counter_random 42] by simp
qed

text \<open>
  C4. Take a table that obeys the primary key and holds no row outside the years 2023 to
  \<open>2023 + years\<close> (an empty table, or the table an earlier run left), seed it and simulate
  from 2024 for \<open>years\<close> years, with any rate bounds and seed; the defaults are 20
  years, rates from -0.01 to 0.03 and seed 42. Then every seeded city has exactly
  \<open>years + 1\<close> rows, its series runs through the years 2023, 2024, ..., \<open>2023 + years\<close>
  in ascending order, and the value at 2023 is the one seeding left, which on an empty
  table is the city's value in the fixed list.
\<close>

theorem series_complete:
  assumes "primary_key (db w)"
    and "\<forall>r \<in> set (db w). 2023 \<le> year r \<and> year r \<le> 2023 + years"
    and "0 \<le> years" and "(c, v) \<in> set cities"
  shows "map fst (select_series
            (db (simulate_growth M 2024 years rate_min rate_max rng_seed (insert_2023_data w))) c)
           = [2023..2023 + years]
       \<and> length (filter (\<lambda>r. city r = c)
            (db (simulate_growth M 2024 years rate_min rate_max rng_seed (insert_2023_data w))))
           = nat years + 1
       \<and> lookup (db (simulate_growth M 2024 years rate_min rate_max rng_seed (insert_2023_data w)))
            (c, 2023) = lookup (db (insert_2023_data w)) (c, 2023)
       \<and> (db w = [] \<longrightarrow> lookup (db (insert_2023_data w)) (c, 2023) = Some v)"
proof -
  let ?w = "insert_2023_data w"
  let ?steps = "simulation_steps M 2024 years rate_min rate_max rng_seed ?w"
  let ?W = "map written ?steps"
  let ?db = "db (simulate_growth M 2024 years rate_min rate_max rng_seed ?w)"
  have keys1: "key ` set (db ?w) = key ` set (db w) \<union> (\<lambda>item. (fst item, 2023)) ` set cities"
    by (simp add: insert_2023_data_def keys_insert_items)
  have pk1: "primary_key (db ?w)"
    using assms(1) by (simp add: insert_2023_data_def primary_key_insert_items)
  have keysW: "key ` set ?W = fst ` set (select_2023 (db ?w)) \<times> {y. 2024 \<le> y \<and> y < 2024 + years}"
    unfolding key_written_image set_step_keys ..
  have final: "?db = write_all (db ?w) ?W"
    by (rule simulate_growth_db)
  have pk: "primary_key ?db"
    unfolding final using pk1 by (rule primary_key_write_all)
  have keys: "key ` set ?db = key ` set (db ?w) \<union> key ` set ?W"
    unfolding final by (rule keys_write_all)
  have base: "(c, 2023) \<in> key ` set (db ?w)"
    unfolding keys1 using assms(4) by force
  then have sim: "c \<in> fst ` set (select_2023 (db ?w))"
    by (force simp: select_2023_def key_def image_iff)
  have window: "{y. (c, y) \<in> key ` set ?db} = {2023..2023 + years}"
  proof (intro equalityI subsetI)
    fix y
    assume "y \<in> {y. (c, y) \<in> key ` set ?db}"
    then consider "(c, y) \<in> key ` set (db w)" | "y = 2023" | "2024 \<le> y \<and> y < 2024 + years"
      unfolding keys keys1 keysW by auto
    then show "y \<in> {2023..2023 + years}"
    proof cases
      case 1
      then obtain r where "r \<in> set (db w)" and "year r = y"
        by (auto simp: key_def)
      then show ?thesis
        using assms(2) by auto
    next
      case 2
      then show ?thesis
        using assms(3) by simp
    next
      case 3
      then show ?thesis
        by simp
    qed
  next
    fix y
    assume y: "y \<in> {2023..2023 + years}"
    show "y \<in> {y. (c, y) \<in> key ` set ?db}"
    proof (cases "y = 2023")
      case True
      then show ?thesis
        unfolding keys using base by simp
    next
      case False
      then have "(c, y) \<in> key ` set ?W"
        unfolding keysW using y sim by simp
      then show ?thesis
        unfolding keys by simp
    qed
  qed
  have "map fst (select_series ?db c) = [2023..2023 + years]"
    using pk window by (rule select_series_years)
  moreover have "length (filter (\<lambda>r. city r = c) ?db) = nat years + 1"
    using rows_of_city_length [OF pk window] assms(3) by (simp add: nat_add_distrib)
  moreover have "lookup ?db (c, 2023) = lookup (db ?w) (c, 2023)"
  proof -
    have "(c, 2023) \<notin> key ` set ?W"
      unfolding keysW by simp
    then show ?thesis
      unfolding final by (rule lookup_write_all_other)
  qed
  moreover have "lookup (db ?w) (c, 2023) = Some v" if "db w = []"
  proof -
    have "db ?w = map (\<lambda>item. (fst item, 2023, snd item)) cities"
      using that by (simp add: insert_2023_data_def insert_items_fresh)
    then show ?thesis
      using lookup_seeded [OF distinct_cities assms(4)] by simp
  qed
  ultimately show ?thesis
    by blast
qed

theorem series_complete_witness:
  "primary_key (db three_cities) \<and> (0::int) \<le> 20 \<and> (''Miami'', 451000) \<in> set cities \<and>
   map fst (select_series
      (db (simulate_growth counter_random 2024 20 (-0.01) 0.03 42 (insert_2023_data three_cities)))
      ''Miami'') = [2023..2043] \<and>
   length (filter (\<lambda>r. city r = ''Miami'')
      (db (simulate_growth counter_random 2024 20 (-0.01) 0.03 42 (insert_2023_data three_cities))))
     = 21 \<and>
   lookup (db (simulate_growth counter_random 2024 20 (-0.01) 0.03 42 (insert_2023_data three_cities)))
      (''Miami'', 2023) = Some 451000"
proof -
  have h1: "primary_key (db three_cities)"
    by code_simp
  have h2: "\<forall>r \<in> set (db three_cities). 2023 \<le> year r \<and> year r \<le> 2023 + 20"
    by (simp add: three_cities_def year_def)
  have h3: "(0::int) \<le> 20"
    by simp
  have h4: "(''Miami'', 451000) \<in> set cities"
    by (simp add: cities_def)
  have e: "lookup (db (insert_2023_data three_cities)) (''Miami'', 2023) = Some 451000"
    by code_simp
  show ?thesis
    using h1 h3 h4 series_complete [OF h1 h2 h3 h4, of counter_random "-0.01" "0.03" 42]
    by (simp add: e)
qed

text \<open>
  C5, as stated, fails in its last part: reordering the cities does not change the rates
  of a city that keeps its position. With three cities and two years, swapping the first
  two cities changes the order of the base rows, and the third city, Tampa, is given the
  same two rates and the same two values in both runs. The generator of the example plays
  no part in this: draws 4 and 5 of the seeded generator go to the third city in both
  orders, whatever the module, as the theorem after this one shows.
\<close>

theorem reordering_counterexample:
  "select_2023 (db three_cities) \<noteq> select_2023 (db three_cities_swapped) \<and>
   filter (\<lambda>st. fst st = ''Tampa'')
       (simulation_steps counter_random 2024 2 (-0.01) 0.03 42 three_cities)
     = [(''Tampa'', 2024, 1 / 400, 398995), (''Tampa'', 2025, 1 / 50, 406975)] \<and>
   filter (\<lambda>st. fst st = ''Tampa'')
       (simulation_steps counter_random 2024 2 (-0.01) 0.03 42 three_cities_swapped)
     = [(''Tampa'', 2024, 1 / 400, 398995), (''Tampa'', 2025, 1 / 50, 406975)] \<and>
   select_series (db (simulate_growth counter_random 2024 2 (-0.01) 0.03 42 three_cities))
       ''Tampa''
     = select_series
         (db (simulate_growth counter_random 2024 2 (-0.01) 0.03 42 three_cities_swapped))
         ''Tampa''"
  by code_simp

text \<open>
  C5, amended. The generator is set from the seed once, and one draw is made for each
  pass through the inner loop, so the run ends with the generator advanced by (number of
  base rows) times (number of years) draws from the seeded state. Step number
  \<open>i * years + j\<close> of the run belongs to the city at position \<open>i\<close> of the base rows and
  to year \<open>start_year + j\<close>, and uses draw number \<open>i * years + j\<close> of the seeded
  generator: all draws of one city come before any draw of the next. The value written is
  the base value grown by the draws \<open>i * years\<close> to \<open>i * years + j\<close> in turn. So the draws
  a city is given are fixed by its position and the number of years: another number of
  years moves the draws of every city after the first, and another order moves the draws
  of the cities whose position changes, and of no other.
\<close>

theorem draws_entity_major:
  assumes "i < length (select_2023 (db w))" and "j < nat years"
  shows "gen (simulate_growth M start_year years rate_min rate_max rng_seed w)
           = nth_state M (random_seed M rng_seed) (length (select_2023 (db w)) * nat years)
       \<and> simulation_steps M start_year years rate_min rate_max rng_seed w ! (i * nat years + j)
           = (fst (select_2023 (db w) ! i), start_year + int j,
              nth_rate M rate_min rate_max (random_seed M rng_seed) (i * nat years + j),
              foldl grow (snd (select_2023 (db w) ! i))
                (map (nth_rate M rate_min rate_max (random_seed M rng_seed))
                   [i * nat years..<i * nat years + Suc j]))
       \<and> db (simulate_growth M start_year years rate_min rate_max rng_seed w)
           = foldl (\<lambda>s r. insert_or_replace r s) (db w)
               (map written (simulation_steps M start_year years rate_min rate_max rng_seed w))
       \<and> (primary_key (db w) \<longrightarrow>
            lookup (db (simulate_growth M start_year years rate_min rate_max rng_seed w))
                (fst (select_2023 (db w) ! i), start_year + int j)
              = Some (foldl grow (snd (select_2023 (db w) ! i))
                  (map (nth_rate M rate_min rate_max (random_seed M rng_seed))
                     [i * nat years..<i * nat years + Suc j])))"
proof (intro conjI impI)
  show "gen (simulate_growth M start_year years rate_min rate_max rng_seed w)
          = nth_state M (random_seed M rng_seed) (length (select_2023 (db w)) * nat years)"
    by (rule simulate_growth_gen)
  show "simulation_steps M start_year years rate_min rate_max rng_seed w ! (i * nat years + j)
          = (fst (select_2023 (db w) ! i), start_year + int j,
             nth_rate M rate_min rate_max (random_seed M rng_seed) (i * nat years + j),
             foldl grow (snd (select_2023 (db w) ! i))
               (map (nth_rate M rate_min rate_max (random_seed M rng_seed))
                  [i * nat years..<i * nat years + Suc j]))"
    using assms by (rule nth_simulation_steps)
  show "db (simulate_growth M start_year years rate_min rate_max rng_seed w)
          = foldl (\<lambda>s r. insert_or_replace r s) (db w)
              (map written (simulation_steps M start_year years rate_min rate_max rng_seed w))"
    by (simp add: simulate_growth_db write_all_def)
  assume "primary_key (db w)"
  then show "lookup (db (simulate_growth M start_year years rate_min rate_max rng_seed w))
               (fst (select_2023 (db w) ! i), start_year + int j)
             = Some (foldl grow (snd (select_2023 (db w) ! i))
                 (map (nth_rate M rate_min rate_max (random_seed M rng_seed))
                    [i * nat years..<i * nat years + Suc j]))"
    using assms by (rule lookup_simulated)
qed

theorem draws_entity_major_witness:
  "2 < length (select_2023 (db three_cities)) \<and> 1 < nat 2 \<and>
   gen (simulate_growth counter_random 2024 2 (-0.01) 0.03 42 three_cities)
     = nth_state counter_random (random_seed counter_random 42) 6 \<and>
   simulation_steps counter_random 2024 2 (-0.01) 0.03 42 three_cities ! 5
     = (''Tampa'', 2025, 1 / 50, 406975)"
proof -
  have h1: "2 < length (select_2023 (db three_cities))"
    by code_simp
  have h2: "1 < nat 2"
    by simp
  note t = draws_entity_major [OF h1 h2, of counter_random 2024 "-0.01" "0.03" 42]
  have "length (select_2023 (db three_cities)) * nat 2 = 6"
    by code_simp
  then have g: "gen (simulate_growth counter_random 2024 2 (-0.01) 0.03 42 three_cities)
     = nth_state counter_random (random_seed counter_random 42) 6"
    using t by simp
  have "simulation_steps counter_random 2024 2 (-0.01) 0.03 42 three_cities ! 5
      = simulation_steps counter_random 2024 2 (-0.01) 0.03 42 three_cities ! (2 * nat 2 + 1)"
    by simp
  also have "\<dots> = (fst (select_2023 (db three_cities) ! 2), 2024 + int 1,
      nth_rate counter_random (-0.01) 0.03 (random_seed counter_random 42) (2 * nat 2 + 1),
      foldl grow (snd (select_2023 (db three_cities) ! 2))
        (map (nth_rate counter_random (-0.01) 0.03 (random_seed counter_random 42))
           [2 * nat 2..<2 * nat 2 + Suc 1]))"
    using t by blast
  also have "\<dots> = (''Tampa'', 2025, 1 / 50, 406975)"
    by code_simp
  finally show ?thesis
    using h1 h2 g by blast
qed

text \<open>
  C10. The base rows are the rows of year 2023, whatever the start year. A city with no
  row of year 2023 keeps exactly the rows it had. And if two tables (each obeying the
  primary key) have the same rows of year 2023, then for a city with such a row the
  value stored \<open>j\<close> years after the start year is the same in a run on the one table
  from \<open>start_year\<close> and in a run on the other from \<open>start_year'\<close>: neither the other
  rows nor the start year bear on the base.
\<close>

theorem base_rows_are_2023:
  assumes "primary_key (db w1)" and "primary_key (db w2)"
    and "filter (\<lambda>r. year r = 2023) (db w1) = filter (\<lambda>r. year r = 2023) (db w2)"
  shows "(c' \<notin> city ` {r \<in> set (db w1). year r = 2023} \<longrightarrow>
            filter (\<lambda>r. city r = c')
                (db (simulate_growth M start_year years rate_min rate_max rng_seed w1))
              = filter (\<lambda>r. city r = c') (db w1))
       \<and> ((c, 2023, p) \<in> set (db w1) \<and> 0 \<le> j \<and> j < years \<longrightarrow>
            lookup (db (simulate_growth M start_year years rate_min rate_max rng_seed w1))
                (c, start_year + j)
              = lookup (db (simulate_growth M start_year' years rate_min rate_max rng_seed w2))
                  (c, start_year' + j)
            \<and> lookup (db (simulate_growth M start_year years rate_min rate_max rng_seed w1))
                (c, start_year + j) \<noteq> None)"
proof (intro conjI impI)
  let ?steps = "simulation_steps M start_year years rate_min rate_max rng_seed w1"
  assume "c' \<notin> city ` {r \<in> set (db w1). year r = 2023}"
  then have "c' \<notin> fst ` set (select_2023 (db w1))"
    by (simp add: cities_select_2023)
  then have "c' \<notin> city ` set (map written ?steps)"
    unfolding city_written_image set_step_keys by auto
  then show "filter (\<lambda>r. city r = c')
                (db (simulate_growth M start_year years rate_min rate_max rng_seed w1))
              = filter (\<lambda>r. city r = c') (db w1)"
    unfolding simulate_growth_db by (rule filter_city_write_all)
next
  assume a: "(c, 2023, p) \<in> set (db w1) \<and> 0 \<le> j \<and> j < years"
  have rows: "select_2023 (db w1) = select_2023 (db w2)"
    using assms(3) by (simp add: select_2023_def)
  from a have "(c, p) \<in> set (select_2023 (db w1))"
    by (simp add: select_2023_iff)
  then obtain i where i: "i < length (select_2023 (db w1))"
    and row: "select_2023 (db w1) ! i = (c, p)"
    by (auto simp: in_set_conv_nth)
  define k where "k = nat j"
  have k: "k < nat years" and j: "j = int k"
    using a by (simp_all add: k_def)
  have i2: "i < length (select_2023 (db w2))"
    using i rows by simp
  have l1: "lookup (db (simulate_growth M start_year years rate_min rate_max rng_seed w1))
                (c, start_year + j)
          = Some (foldl grow p (map (nth_rate M rate_min rate_max (random_seed M rng_seed))
              [i * nat years..<i * nat years + Suc k]))"
    using lookup_simulated [OF assms(1) i k, of M start_year rate_min rate_max rng_seed]
    by (simp add: row j del: upt_Suc)
  have l2: "lookup (db (simulate_growth M start_year' years rate_min rate_max rng_seed w2))
                (c, start_year' + j)
          = Some (foldl grow p (map (nth_rate M rate_min rate_max (random_seed M rng_seed))
              [i * nat years..<i * nat years + Suc k]))"
    using lookup_simulated [OF assms(2) i2 k, of M start_year' rate_min rate_max rng_seed]
    by (simp add: row j flip: rows del: upt_Suc)
  show "lookup (db (simulate_growth M start_year years rate_min rate_max rng_seed w1))
                (c, start_year + j)
              = lookup (db (simulate_growth M start_year' years rate_min rate_max rng_seed w2))
                  (c, start_year' + j)"
    using l1 l2 by simp
  show "lookup (db (simulate_growth M start_year years rate_min rate_max rng_seed w1))
                (c, start_year + j) \<noteq> None"
    using l1 by simp
qed

theorem base_rows_are_2023_witness:
  "primary_key (db three_cities_and_more) \<and> primary_key (db three_cities) \<and>
   filter (\<lambda>r. year r = 2023) (db three_cities_and_more)
     = filter (\<lambda>r. year r = 2023) (db three_cities) \<and>
   ''Ocala'' \<notin> city ` {r \<in> set (db three_cities_and_more). year r = 2023} \<and>
   (''Tampa'', 2023, 398000) \<in> set (db three_cities_and_more) \<and>
   filter (\<lambda>r. city r = ''Ocala'')
       (db (simulate_growth counter_random 2024 20 (-0.01) 0.03 42 three_cities_and_more))
     = filter (\<lambda>r. city r = ''Ocala'') (db three_cities_and_more) \<and>
   lookup (db (simulate_growth counter_random 2024 20 (-0.01) 0.03 42 three_cities_and_more))
       (''Tampa'', 2024 + 6)
     = lookup (db (simulate_growth counter_random 1999 20 (-0.01) 0.03 42 three_cities))
         (''Tampa'', 1999 + 6)"
proof -
  have h1: "primary_key (db three_cities_and_more)"
    by code_simp
  have h2: "primary_key (db three_cities)"
    by code_simp
  have h3: "filter (\<lambda>r. year r = 2023) (db three_cities_and_more)
     = filter (\<lambda>r. year r = 2023) (db three_cities)"
    by code_simp
  have h4: "''Ocala'' \<notin> city ` {r \<in> set (db three_cities_and_more). year r = 2023}"
    by (auto simp: three_cities_and_more_def city_def year_def)
  have h5: "(''Tampa'', 2023, 398000) \<in> set (db three_cities_and_more)"
    by code_simp
  show ?thesis
    using h1 h2 h3 h4 h5
      base_rows_are_2023 [OF h1 h2 h3, of "''Ocala''" counter_random 2024 20 "-0.01" "0.03" 42
        "''Tampa''" 398000 6 1999]
    by simp
qed

end
